theory Spec2Isabelle
  imports Complex_Main
begin

section \<open>JavaScript numbers that hold integers\<close>

text \<open>
  The numbers of the pagination control (a zero-based page index, a page count, an element
  count, a page size) are JavaScript numbers that hold integers. A JavaScript number is a
  double: it has 53 bits of precision, so not every integer is one, and the result of an
  operation is the exact result rounded to the nearest double, to the one with the even
  significand when two are equally near. An integer-valued number is modelled as the
  \<^typ>\<open>int\<close> it holds, and every arithmetic operation of the source as the exact
  operation followed by that rounding. An \<^typ>\<open>int\<close> that is not a double is never
  an input of the source.

  From \<open>2 ^ 53 = 9007199254740992\<close> on the doubles thin out: between \<open>2 ^ (52 + k)\<close> and
  \<open>2 ^ (53 + k)\<close> they are the multiples of \<open>2 ^ k\<close>. \<open>spacing n\<close> is that distance at
  a magnitude \<open>n\<close>, and \<open>nearest n\<close> the double nearest to \<open>n\<close>.
\<close>

function spacing :: "int \<Rightarrow> int" where
  "spacing n = (if n < 9007199254740992 then 1 else 2 * spacing (n div 2))"
  by pat_completeness auto
termination
  by (relation "measure nat") auto

declare spacing.simps [simp del]

definition nearest :: "int \<Rightarrow> int" where
  "nearest n =
     (let u = spacing n; q = n div u; r = n mod u
      in if 2 * r < u \<or> (2 * r = u \<and> even q) then q * u else (q + 1) * u)"

definition to_double :: "int \<Rightarrow> int" where
  "to_double x = (if x < 0 then - nearest (- x) else nearest x)"

text \<open>
  \<^verbatim>\<open>a + b\<close> and \<^verbatim>\<open>a - b\<close> where the source adds or subtracts a small constant: the
  result stays finite.
\<close>

definition js_plus :: "int \<Rightarrow> int \<Rightarrow> int" where
  "js_plus a b = to_double (a + b)"

definition js_minus :: "int \<Rightarrow> int \<Rightarrow> int" where
  "js_minus a b = to_double (a - b)"

text \<open>
  A product can leave the range of the doubles: from \<open>2 ^ 1024 - 2 ^ 970\<close> on, a result
  rounds to \<^verbatim>\<open>Infinity\<close>. \<open>js_number\<close> is a number that holds an integer or is infinite,
  with the operations the range text applies to one.
\<close>

datatype js_number = Finite int | PlusInfinity | MinusInfinity

definition to_number :: "int \<Rightarrow> js_number" where
  "to_number x =
     (if 2 ^ 1024 - 2 ^ 970 \<le> x then PlusInfinity
      else if x \<le> - (2 ^ 1024 - 2 ^ 970) then MinusInfinity
      else Finite (to_double x))"

definition js_times :: "int \<Rightarrow> int \<Rightarrow> js_number" where
  "js_times a b = to_number (a * b)"

fun number_plus :: "js_number \<Rightarrow> int \<Rightarrow> js_number" where
  "number_plus (Finite a) b = Finite (js_plus a b)"
| "number_plus PlusInfinity b = PlusInfinity"
| "number_plus MinusInfinity b = MinusInfinity"

fun Math_min :: "js_number \<Rightarrow> int \<Rightarrow> js_number" where
  "Math_min (Finite a) b = Finite (min a b)"
| "Math_min PlusInfinity b = Finite b"
| "Math_min MinusInfinity b = MinusInfinity"

section \<open>The pagination control (src/ui/components/organisms/Pagination.tsx)\<close>

text \<open>
  The array \<^verbatim>\<open>pages\<close> is an \<^typ>\<open>int list\<close>. \<^verbatim>\<open>pages.push(x)\<close> appends at the end;
  on an array that already has the greatest length an array can have, \<open>2 ^ 32 - 1\<close>,
  it throws a \<^verbatim>\<open>RangeError\<close>.
\<close>

datatype exception = RangeError

definition MAX_ARRAY_LENGTH :: nat where
  "MAX_ARRAY_LENGTH = 4294967295"

definition push :: "int list \<Rightarrow> int \<Rightarrow> exception + int list" where
  "push pages x =
     (if length pages < MAX_ARRAY_LENGTH then Inr (pages @ [x]) else Inl RangeError)"

text \<open>Statements in sequence: what the first throws, the whole throws.\<close>

definition and_then :: "exception + 'a \<Rightarrow> ('a \<Rightarrow> exception + 'b) \<Rightarrow> exception + 'b" where
  "and_then r f = (case r of Inl e \<Rightarrow> Inl e | Inr x \<Rightarrow> f x)"

text \<open>
  \<^verbatim>\<open>for (let i = lo; i < n; i++) pages.push(i)\<close>, the loop of lines 53 and 59, entered
  with \<^verbatim>\<open>i\<close> already initialised. Where \<^verbatim>\<open>i++\<close> rounds back to \<^verbatim>\<open>i\<close> the loop
  goes on pushing until the array is full.
\<close>

function push_while_lt :: "int \<Rightarrow> int \<Rightarrow> int list \<Rightarrow> exception + int list" where
  "push_while_lt i n pages =
     (if i < n then
        (case push pages i of
           Inl e \<Rightarrow> Inl e
         | Inr pages' \<Rightarrow> push_while_lt (js_plus i 1) n pages')
      else Inr pages)"
  by pat_completeness auto
termination
  by (relation "measure (\<lambda>(i, n, pages). MAX_ARRAY_LENGTH - length pages)")
    (auto simp add: push_def split: if_splits)

declare push_while_lt.simps [simp del]

text \<open>
  \<^verbatim>\<open>for (let i = lo; i <= currentPage + 1; i++) pages.push(i)\<close>, the loop of line 63;
  \<open>hi\<close> is the value of the bound, the same at every test.
\<close>

function push_while_le :: "int \<Rightarrow> int \<Rightarrow> int list \<Rightarrow> exception + int list" where
  "push_while_le i hi pages =
     (if i \<le> hi then
        (case push pages i of
           Inl e \<Rightarrow> Inl e
         | Inr pages' \<Rightarrow> push_while_le (js_plus i 1) hi pages')
      else Inr pages)"
  by pat_completeness auto
termination
  by (relation "measure (\<lambda>(i, hi, pages). MAX_ARRAY_LENGTH - length pages)")
    (auto simp add: push_def split: if_splits)

declare push_while_le.simps [simp del]

text \<open>
  \<^verbatim>\<open>Array.from({ length: n }, (_, i) => i)\<close>: the platform clamps a negative length to
  zero, so the array has \<open>nat n\<close> entries, the indices from 0 upwards. It is called with
  \<open>n \<le> 7\<close> only.
\<close>

definition Array_from_length :: "int \<Rightarrow> int list" where
  "Array_from_length n = map int [0..<nat n]"

text \<open>
  The closure \<^verbatim>\<open>getVisiblePages\<close> of lines 46 to 68 reads \<^verbatim>\<open>currentPage\<close> and
  \<^verbatim>\<open>totalPages\<close> from the enclosing component; here they are its arguments. The
  numbers \<open>-1\<close> and \<open>-2\<close> that it pushes stand for the two ellipses. It returns the
  array (\<open>Inr\<close>) or throws (\<open>Inl\<close>).
\<close>

definition getVisiblePages :: "int \<Rightarrow> int \<Rightarrow> exception + int list" where
  "getVisiblePages currentPage totalPages =
     (if totalPages \<le> 7 then Inr (Array_from_length totalPages)
      else if currentPage \<le> 2 then
        and_then (push_while_lt 0 5 []) (\<lambda>pages.
        and_then (push pages (- 1)) (\<lambda>pages.
        push pages (js_minus totalPages 1)))
      else if currentPage \<ge> js_minus totalPages 3 then
        and_then (push [] 0) (\<lambda>pages.
        and_then (push pages (- 1)) (\<lambda>pages.
        push_while_lt (js_minus totalPages 5) totalPages pages))
      else
        and_then (push [] 0) (\<lambda>pages.
        and_then (push pages (- 1)) (\<lambda>pages.
        and_then (push_while_le (js_minus currentPage 1) (js_plus currentPage 1) pages) (\<lambda>pages.
        and_then (push pages (- 2)) (\<lambda>pages.
        push pages (js_minus totalPages 1))))))"

text \<open>The test of line 121 that decides whether an entry is drawn as an ellipsis.\<close>

definition is_ellipsis :: "int \<Rightarrow> bool" where
  "is_ellipsis page \<longleftrightarrow> page = - 1 \<or> page = - 2"

text \<open>
  The text of an array index in a template literal: its decimal digits.
\<close>

definition digit_char :: "nat \<Rightarrow> char" where
  "digit_char d = ''0123456789'' ! d"

function show_nat :: "nat \<Rightarrow> string" where
  "show_nat n = (if n < 10 then [digit_char n] else show_nat (n div 10) @ [digit_char (n mod 10)])"
  by pat_completeness auto
termination
  by (relation "measure id") auto

declare show_nat.simps [simp del]

text \<open>
  What \<^verbatim>\<open>visiblePages.map((page, index) => ...)\<close> of lines 120 to 142 yields for one
  entry: a static span with the key \<^verbatim>\<open>ellipsis-${index}\<close>, or a button with the key
  \<^verbatim>\<open>page\<close> (the number itself is what the source passes), which calls
  \<^verbatim>\<open>onPageChange(page)\<close>, is disabled while loading, is highlighted when it is the
  current page, and is labelled \<^verbatim>\<open>page + 1\<close>.
\<close>

datatype nav_item =
    EllipsisSpan string
  | PageButton int int bool bool int

definition render_page :: "int \<Rightarrow> bool \<Rightarrow> int \<Rightarrow> nat \<Rightarrow> nav_item" where
  "render_page currentPage loading page index =
     (if page = - 1 \<or> page = - 2 then EllipsisSpan (''ellipsis-'' @ show_nat index)
      else PageButton page page loading (page = currentPage) (js_plus page 1))"

definition render_pages :: "int \<Rightarrow> bool \<Rightarrow> int list \<Rightarrow> nav_item list" where
  "render_pages currentPage loading visiblePages =
     map (\<lambda>(page, index). render_page currentPage loading page index)
       (zip visiblePages [0..<length visiblePages])"

text \<open>The keys of the ellipsis spans among rendered items, in order.\<close>

fun ellipsis_keys :: "nav_item list \<Rightarrow> string list" where
  "ellipsis_keys [] = []"
| "ellipsis_keys (EllipsisSpan k # items) = k # ellipsis_keys items"
| "ellipsis_keys (PageButton k page disabled active label # items) = ellipsis_keys items"

text \<open>
  What the component draws: the range text \<open>shown_start\<close> to \<open>shown_end\<close> of
  \<open>shown_total\<close>, the previous and next buttons (the page each asks for and whether it is
  disabled) and the page items between them.
\<close>

record rendered =
  shown_start :: js_number
  shown_end :: js_number
  shown_total :: int
  prev_target :: int
  prev_disabled :: bool
  next_target :: int
  next_disabled :: bool
  nav :: "nav_item list"

text \<open>
  The component, lines 30 to 154. The optional props \<^verbatim>\<open>pageSize\<close> and
  \<^verbatim>\<open>loading\<close> take their defaults 5 and false when absent; with at most one page the
  component renders nothing (\<open>None\<close>). What \<^verbatim>\<open>getVisiblePages\<close> throws, the component
  throws.
\<close>

definition Pagination ::
  "int \<Rightarrow> int \<Rightarrow> int \<Rightarrow> int option \<Rightarrow> bool option \<Rightarrow> exception + rendered option" where
  "Pagination currentPage totalPages totalElements pageSize_prop loading_prop =
     (let pageSize = (case pageSize_prop of None \<Rightarrow> 5 | Some n \<Rightarrow> n);
          loading = (case loading_prop of None \<Rightarrow> False | Some b \<Rightarrow> b)
      in if totalPages \<le> 1 then Inr None
         else
           (let isFirst = (currentPage = 0);
                isLast = (currentPage = js_minus totalPages 1);
                start = number_plus (js_times currentPage pageSize) 1;
                end' = Math_min (js_times (js_plus currentPage 1) pageSize) totalElements
            in and_then (getVisiblePages currentPage totalPages) (\<lambda>visiblePages.
               Inr (Some \<lparr> shown_start = start,
                           shown_end = end',
                           shown_total = totalElements,
                           prev_target = js_minus currentPage 1,
                           prev_disabled = (isFirst \<or> loading),
                           next_target = js_plus currentPage 1,
                           next_disabled = (isLast \<or> loading),
                           nav = render_pages currentPage loading visiblePages \<rparr>))))"

section \<open>The HTTP request wrapper (shared/services/fetchHttpClient)\<close>

text \<open>
  The wrapper is asynchronous code over the browser platform: \<^verbatim>\<open>setTimeout\<close>,
  \<^verbatim>\<open>fetch\<close>, the methods of the response, \<^verbatim>\<open>JSON\<close> and the console. The platform
  is not part of the repository. Its pure functions are parameters of the model, what the
  network does is an input, and its effects are written into an explicit state: the timers
  that are armed, and the trace of platform events in the order they happen.

  JSON values are a type parameter \<open>'j\<close>. The payload of a failed request is \<^verbatim>\<open>null\<close>,
  a parsed JSON value or the raw text.
\<close>

datatype 'j error_data = DataNull | DataParsed 'j | DataText string

text \<open>
  The errors a call can fail with: the platform's own (an aborted fetch, a network failure,
  a body that is not JSON) and the one line 260 builds,
  \<^verbatim>\<open>Object.assign(new Error(message), { status, data })\<close>.
\<close>

datatype 'j js_error =
    AbortError
  | TypeError string
  | SyntaxError
  | HttpError string int "'j error_data"

text \<open>What a call resolves to: \<^verbatim>\<open>undefined\<close>, a parsed JSON value or a text.\<close>

datatype 'j js_value = Undefined | JsonValue 'j | TextValue string

text \<open>
  The options of a call, \<^verbatim>\<open>RequestInit & { jsonBody?: unknown }\<close>, as far as the wrapper
  reads them, and the init object it passes on to \<^verbatim>\<open>fetch\<close>. The field
  \<^verbatim>\<open>method\<close> is written \<open>http_method\<close>. An object of headers is a list of
  properties. The abort signal is named by the timer that aborts it.
\<close>

record 'j request_options =
  http_method :: "string option"
  headers :: "(string \<times> string) list option"
  body :: "string option"
  jsonBody :: "'j option"

record fetch_init =
  init_method :: "string option"
  init_signal :: nat
  init_headers :: "(string \<times> string) list"
  init_body :: "string option"

text \<open>
  A response, as far as the wrapper reads it: the fields \<^verbatim>\<open>ok\<close>, \<^verbatim>\<open>status\<close> and
  \<^verbatim>\<open>statusText\<close>, the header \<^verbatim>\<open>content-type\<close> (absent: \<open>None\<close>), the text of the
  body, and how reading the body goes: it completes, it fails on the network, or it takes
  longer than the timer has left.
\<close>

datatype read_event = ReadCompletes | ReadFails string | ReadOutlastsTimer

record response =
  ok :: bool
  status :: int
  statusText :: string
  content_type :: "string option"
  body_text :: string
  read :: read_event

text \<open>
  What the awaited \<^verbatim>\<open>fetch\<close> does: the timer fires first and aborts it, it fails on
  the network, or it resolves to a response.
\<close>

datatype fetch_outcome = FetchTimedOut | FetchFails string | FetchResponds response

datatype 'j event =
    SetTimeout nat nat
  | TimerFired nat
  | ClearTimeout nat
  | Fetch string fetch_init
  | ResText
  | ResJson
  | JSONParse string
  | ConsoleError "'j js_error"

record 'j js_state =
  armed :: "nat list"
  next_timer :: nat
  trace :: "'j event list"

text \<open>
  The parameters: the base address read from the environment at line 161, and the two
  functions of \<^verbatim>\<open>JSON\<close>. \<open>JSON_parse\<close> yields \<open>None\<close> where \<^verbatim>\<open>JSON.parse\<close> throws.
  A \<^verbatim>\<open>jsonBody\<close> is a JSON value, and on those \<^verbatim>\<open>JSON.stringify\<close> does not throw.
\<close>

record 'j platform =
  BASE_URL :: string
  JSON_parse :: "string \<Rightarrow> 'j option"
  JSON_stringify :: "'j \<Rightarrow> string"

definition TIMEOUT :: nat where
  "TIMEOUT = 10000"

definition buildURL :: "'j platform \<Rightarrow> string \<Rightarrow> string" where
  "buildURL P endpoint = (let fullUrl = BASE_URL P @ endpoint in fullUrl)"

definition log_event :: "'j event \<Rightarrow> 'j js_state \<Rightarrow> 'j js_state" where
  "log_event e s = s\<lparr>trace := trace s @ [e]\<rparr>"

text \<open>
  \<^verbatim>\<open>setTimeout\<close> arms a new timer and returns its id; \<^verbatim>\<open>clearTimeout\<close> disarms a
  timer (and does nothing to one that is not armed); a timer that fires is no longer armed.
\<close>

definition setTimeout :: "nat \<Rightarrow> 'j js_state \<Rightarrow> nat \<times> 'j js_state" where
  "setTimeout ms s =
     (let t = next_timer s
      in (t, log_event (SetTimeout t ms) (s\<lparr>armed := t # armed s, next_timer := Suc t\<rparr>)))"

definition clearTimeout :: "nat \<Rightarrow> 'j js_state \<Rightarrow> 'j js_state" where
  "clearTimeout t s = log_event (ClearTimeout t) (s\<lparr>armed := removeAll t (armed s)\<rparr>)"

definition timer_fires :: "nat \<Rightarrow> 'j js_state \<Rightarrow> 'j js_state" where
  "timer_fires t s = log_event (TimerFired t) (s\<lparr>armed := removeAll t (armed s)\<rparr>)"

text \<open>
  \<^verbatim>\<open>timeoutSignal\<close>, lines 200 to 204: the pair of the signal and the timer id. The
  signal is aborted by that timer and by nothing else, so the id stands for both.
\<close>

definition timeoutSignal :: "nat \<Rightarrow> 'j js_state \<Rightarrow> (nat \<times> nat) \<times> 'j js_state" where
  "timeoutSignal ms s = (let (t, s') = setTimeout ms s in ((t, t), s'))"

text \<open>\<^verbatim>\<open>{ ...headers, [k]: v }\<close>: the property is replaced in place, or added at the end.\<close>

fun set_property :: "string \<Rightarrow> string \<Rightarrow> (string \<times> string) list \<Rightarrow> (string \<times> string) list" where
  "set_property k v [] = [(k, v)]"
| "set_property k v ((k', v') # ps) =
     (if k' = k then (k, v) # ps else (k', v') # set_property k v ps)"

text \<open>\<^verbatim>\<open>s.includes(sub)\<close>: \<open>sub\<close> occurs in \<open>s\<close> as a contiguous piece.\<close>

fun String_includes :: "string \<Rightarrow> string \<Rightarrow> bool" where
  "String_includes [] sub = (sub = [])"
| "String_includes (c # cs) sub = (take (length sub) (c # cs) = sub \<or> String_includes cs sub)"

text \<open>
  The init object of lines 235 to 248:
  \<^verbatim>\<open>{ ...options, signal, headers: finalHeaders, body: hasJsonBody ? JSON.stringify(options.jsonBody) : options.body }\<close>.
\<close>

definition fetch_arguments :: "'j platform \<Rightarrow> 'j request_options \<Rightarrow> nat \<Rightarrow> fetch_init" where
  "fetch_arguments P options signal =
     (let hasJsonBody = (jsonBody options \<noteq> None);
          hdrs = (case headers options of None \<Rightarrow> [] | Some h \<Rightarrow> h);
          finalHeaders =
            (if hasJsonBody then set_property ''Content-Type'' ''application/json'' hdrs
             else hdrs)
      in \<lparr> init_method = http_method options,
           init_signal = signal,
           init_headers = finalHeaders,
           init_body = (case jsonBody options of Some j \<Rightarrow> Some (JSON_stringify P j)
                        | None \<Rightarrow> body options) \<rparr>)"

text \<open>
  A read of the body that is called but not awaited inside the \<^verbatim>\<open>try\<close> block (lines 270 and
  273): the promise it returns settles after the \<^verbatim>\<open>finally\<close> block has cleared the
  timer, so the read is no longer cut short by it. \<^verbatim>\<open>res.json()\<close> rejects when the text
  is not JSON.
\<close>

definition res_json :: "'j platform \<Rightarrow> response \<Rightarrow> 'j js_error + 'j js_value" where
  "res_json P res =
     (case read res of
        ReadFails m \<Rightarrow> Inl (TypeError m)
      | _ \<Rightarrow> (case JSON_parse P (body_text res) of
                None \<Rightarrow> Inl SyntaxError
              | Some j \<Rightarrow> Inr (JsonValue j)))"

definition res_text :: "response \<Rightarrow> 'j js_error + 'j js_value" where
  "res_text res =
     (case read res of
        ReadFails m \<Rightarrow> Inl (TypeError m)
      | _ \<Rightarrow> Inr (TextValue (body_text res)))"

text \<open>
  Lines 250 to 264, the branch of a response that is not ok. \<^verbatim>\<open>await res.text()\<close> is
  awaited inside the \<^verbatim>\<open>try\<close> block, so the timer can still abort it. The result is
  always a throw.
\<close>

definition throw_http_error ::
  "'j platform \<Rightarrow> response \<Rightarrow> nat \<Rightarrow> 'j js_state \<Rightarrow> 'j js_error \<times> 'j js_state" where
  "throw_http_error P res timer s0 =
     (let s1 = log_event ResText s0
      in case read res of
           ReadOutlastsTimer \<Rightarrow> (AbortError, timer_fires timer s1)
         | ReadFails m \<Rightarrow> (TypeError m, s1)
         | ReadCompletes \<Rightarrow>
             (let text = body_text res;
                  (errorData, s2) =
                    (if text \<noteq> [] then
                       (case JSON_parse P text of
                          Some j \<Rightarrow> DataParsed j
                        | None \<Rightarrow> DataText text,
                        log_event (JSONParse text) s1)
                     else (DataNull, s1))
              in (HttpError (if text \<noteq> [] then text else statusText res) (status res) errorData,
                  s2)))"

text \<open>
  The \<^verbatim>\<open>try\<close> block, lines 235 to 273. \<open>Inl e\<close>: it throws \<open>e\<close>. \<open>Inr p\<close>: it returns,
  and \<open>p\<close> is how the returned value settles (\<open>Inr v\<close> for a plain value \<open>v\<close> and for a
  promise that resolves to \<open>v\<close>, \<open>Inl e\<close> for a promise that rejects with \<open>e\<close>).
\<close>

definition try_block ::
  "'j platform \<Rightarrow> fetch_outcome \<Rightarrow> string \<Rightarrow> 'j request_options \<Rightarrow> nat \<Rightarrow> nat \<Rightarrow> 'j js_state
     \<Rightarrow> ('j js_error + ('j js_error + 'j js_value)) \<times> 'j js_state" where
  "try_block P net endpoint options signal timer s0 =
     (let s1 = log_event (Fetch (buildURL P endpoint) (fetch_arguments P options signal)) s0
      in case net of
           FetchTimedOut \<Rightarrow> (Inl AbortError, timer_fires timer s1)
         | FetchFails m \<Rightarrow> (Inl (TypeError m), s1)
         | FetchResponds res \<Rightarrow>
             if \<not> ok res then
               (let (e, s2) = throw_http_error P res timer s1 in (Inl e, s2))
             else if status res = 204 then (Inr (Inr Undefined), s1)
             else
               (let contentType = content_type res
                in if (case contentType of None \<Rightarrow> False
                       | Some ct \<Rightarrow> String_includes ct ''application/json'')
                   then (Inr (res_json P res), log_event ResJson s1)
                   else (Inr (res_text res), log_event ResText s1)))"

text \<open>
  \<^verbatim>\<open>request\<close>, lines 228 to 282: the timer is set, the \<^verbatim>\<open>try\<close> block runs, what it
  throws is logged and thrown again by the \<^verbatim>\<open>catch\<close> block, and the \<^verbatim>\<open>finally\<close>
  block clears the timer. The result is how the promise of the call settles, \<open>Inl\<close> for a
  rejection, with the state the call leaves behind.
\<close>

definition request ::
  "'j platform \<Rightarrow> fetch_outcome \<Rightarrow> string \<Rightarrow> 'j request_options \<Rightarrow> 'j js_state
     \<Rightarrow> ('j js_error + 'j js_value) \<times> 'j js_state" where
  "request P net endpoint options s0 =
     (let ((signal, timer), s1) = timeoutSignal TIMEOUT s0;
          (r, s2) = try_block P net endpoint options signal timer s1;
          (r', s3) = (case r of
                        Inl error \<Rightarrow> (Inl error, log_event (ConsoleError error) s2)
                      | Inr p \<Rightarrow> (p, s2));
          s4 = clearTimeout timer s3
      in (r', s4))"

text \<open>The state in which the \<^verbatim>\<open>try\<close> block starts: the timer of the call is armed.\<close>

definition started :: "'j js_state \<Rightarrow> 'j js_state" where
  "started s =
     log_event (SetTimeout (next_timer s) TIMEOUT)
       (s\<lparr>armed := next_timer s # armed s, next_timer := Suc (next_timer s)\<rparr>)"

text \<open>\<^verbatim>\<open>httpClient.get\<close>, line 315: \<^verbatim>\<open>request(url, { ...init, method: "GET" })\<close>.\<close>

definition httpClient_get ::
  "'j platform \<Rightarrow> fetch_outcome \<Rightarrow> string \<Rightarrow> 'j request_options \<Rightarrow> 'j js_state
     \<Rightarrow> ('j js_error + 'j js_value) \<times> 'j js_state" where
  "httpClient_get P net url init s = request P net url (init\<lparr>http_method := Some ''GET''\<rparr>) s"

text \<open>The events a call adds to the trace.\<close>

definition events_of ::
  "'j platform \<Rightarrow> fetch_outcome \<Rightarrow> string \<Rightarrow> 'j request_options \<Rightarrow> 'j js_state \<Rightarrow> 'j event list" where
  "events_of P net endpoint options s =
     drop (length (trace s)) (trace (snd (request P net endpoint options s)))"

text \<open>
  The payload of a failed request in the words of the specification: the parsed body when
  parsing succeeds, the raw text otherwise.
\<close>

definition spec_error_data :: "'j platform \<Rightarrow> string \<Rightarrow> 'j error_data" where
  "spec_error_data P text =
     (case JSON_parse P text of Some j \<Rightarrow> DataParsed j | None \<Rightarrow> DataText text)"

subsection \<open>Concrete inputs for the examples\<close>

datatype json =
    JNull
  | JBool bool
  | JNumber int
  | JString string
  | JArray "json list"
  | JObject "(string \<times> json) list"

text \<open>
  A stand-in for \<^verbatim>\<open>JSON.parse\<close> that is right on the texts of the examples: the object
  \<^verbatim>\<open>{"error":"not found"}\<close> parses, the empty text and the text \<^verbatim>\<open>Not Found\<close> do not.
  It is used at these three texts only.
\<close>

definition example_parse :: "string \<Rightarrow> json option" where
  "example_parse text =
     (if text = ''{\"error\":\"not found\"}'' then Some (JObject [(''error'', JString ''not found'')])
      else None)"

definition example_platform :: "json platform" where
  "example_platform =
     \<lparr> BASE_URL = ''http://localhost:8080'',
       JSON_parse = example_parse,
       JSON_stringify = (\<lambda>j. []) \<rparr>"

definition no_options :: "json request_options" where
  "no_options = \<lparr> http_method = None, headers = None, body = None, jsonBody = None \<rparr>"

definition initial_state :: "json js_state" where
  "initial_state = \<lparr> armed = [], next_timer = 0, trace = [] \<rparr>"

definition error_response :: "int \<Rightarrow> string \<Rightarrow> string \<Rightarrow> response" where
  "error_response code reason text =
     \<lparr> ok = False, status = code, statusText = reason, content_type = Some ''application/json'',
       body_text = text, read = ReadCompletes \<rparr>"

text \<open>
  A response with status 204 whose headers announce JSON, whose body is not JSON and
  cannot even be read.
\<close>

definition no_content_response :: response where
  "no_content_response =
     \<lparr> ok = True, status = 204, statusText = ''No Content'',
       content_type = Some ''application/json'', body_text = ''not json'',
       read = ReadFails ''connection reset'' \<rparr>"

section \<open>The paginated result (bus-assembler.ts, bus-service.ts)\<close>

text \<open>
  The wire format of a bus and the domain entity have the same seven fields. The field
  \<^verbatim>\<open>id\<close> is written \<open>id'\<close>.
\<close>

record BusResource =
  id' :: int
  busNumber :: int
  licensePlate :: string
  brand :: string
  characteristics :: string
  isActive :: bool
  createdAt :: string

record Bus =
  id' :: int
  busNumber :: int
  licensePlate :: string
  brand :: string
  characteristics :: string
  isActive :: bool
  createdAt :: string

text \<open>
  The page envelope of the server, with the fields the client reads; the fields
  \<^verbatim>\<open>size\<close> and \<^verbatim>\<open>last\<close> are written \<open>size'\<close> and \<open>last'\<close>. The fields it never
  reads (\<^verbatim>\<open>pageable\<close>, \<^verbatim>\<open>sort\<close>, \<^verbatim>\<open>numberOfElements\<close>, \<^verbatim>\<open>empty\<close>) live in the
  extension of the record.
\<close>

record PaginatedBusResponse =
  content :: "BusResource list"
  last' :: bool
  totalElements :: int
  totalPages :: int
  size' :: int
  number :: int
  first :: bool

record PaginatedBusResult =
  buses :: "Bus list"
  totalElements :: int
  totalPages :: int
  currentPage :: int
  pageSize :: int
  isFirst :: bool
  isLast :: bool

definition toEntityFromResource :: "BusResource \<Rightarrow> Bus" where
  "toEntityFromResource resource =
     \<lparr> Bus.id' = BusResource.id' resource,
       Bus.busNumber = BusResource.busNumber resource,
       Bus.licensePlate = BusResource.licensePlate resource,
       Bus.brand = BusResource.brand resource,
       Bus.characteristics = BusResource.characteristics resource,
       Bus.isActive = BusResource.isActive resource,
       Bus.createdAt = BusResource.createdAt resource \<rparr>"

definition toEntitiesFromPaginatedResponse :: "'a PaginatedBusResponse_scheme \<Rightarrow> Bus list" where
  "toEntitiesFromPaginatedResponse response = map toEntityFromResource (content response)"

definition toPaginatedResult :: "'a PaginatedBusResponse_scheme \<Rightarrow> PaginatedBusResult" where
  "toPaginatedResult response =
     \<lparr> buses = toEntitiesFromPaginatedResponse response,
       totalElements = PaginatedBusResponse.totalElements response,
       totalPages = PaginatedBusResponse.totalPages response,
       currentPage = number response,
       pageSize = size' response,
       isFirst = first response,
       isLast = last' response \<rparr>"

text \<open>
  \<^verbatim>\<open>busService.getPaginated\<close>: it awaits \<^verbatim>\<open>busApi.getPaginatedBuses(page, size)\<close>, whose
  outcome is the argument here, hands the response to the assembler, and throws again what
  the call threw.
\<close>

definition getPaginated :: "'e + 'a PaginatedBusResponse_scheme \<Rightarrow> 'e + PaginatedBusResult" where
  "getPaginated awaited =
     (case awaited of
        Inl error \<Rightarrow> Inl error
      | Inr response \<Rightarrow> Inr (toPaginatedResult response))"

text \<open>
  The invariants of the page metadata in the words of the specification, for the metadata
  of a result and for the same numbers and flags in a response. The ceiling of a quotient
  of integers is computed on integers.
\<close>

definition ceil_div :: "int \<Rightarrow> int \<Rightarrow> int" where
  "ceil_div a b = - ((- a) div b)"

definition page_invariants :: "int \<Rightarrow> int \<Rightarrow> int \<Rightarrow> int \<Rightarrow> bool \<Rightarrow> bool \<Rightarrow> bool" where
  "page_invariants cur pages elements psize is_first is_last \<longleftrightarrow>
     (elements > 0 \<longrightarrow> 0 \<le> cur \<and> cur < pages)
     \<and> (psize > 0 \<longrightarrow> pages = ceil_div elements psize)
     \<and> (is_first \<longleftrightarrow> cur = 0)
     \<and> (is_last \<longleftrightarrow> cur = pages - 1)"

definition result_invariants :: "PaginatedBusResult \<Rightarrow> bool" where
  "result_invariants r \<longleftrightarrow>
     page_invariants (currentPage r) (totalPages r) (totalElements r) (pageSize r)
       (isFirst r) (isLast r)"

definition response_invariants :: "'a PaginatedBusResponse_scheme \<Rightarrow> bool" where
  "response_invariants response \<longleftrightarrow>
     page_invariants (number response) (PaginatedBusResponse.totalPages response)
       (PaginatedBusResponse.totalElements response) (size' response)
       (first response) (last' response)"

text \<open>The page a server sends for a fleet with no buses, and the fifth page of 23 buses.\<close>

definition empty_fleet_page :: PaginatedBusResponse where
  "empty_fleet_page =
     \<lparr> content = [], last' = True, PaginatedBusResponse.totalElements = 0,
       PaginatedBusResponse.totalPages = 0, size' = 5, number = 0, first = True \<rparr>"

definition example_bus :: BusResource where
  "example_bus =
     \<lparr> BusResource.id' = 21,
       BusResource.busNumber = 121,
       BusResource.licensePlate = ''ABC-123'',
       BusResource.brand = ''Volvo'',
       BusResource.characteristics = ''WiFi'',
       BusResource.isActive = True,
       BusResource.createdAt = ''2023-01-01T00:00:00Z'' \<rparr>"

definition last_page_of_23 :: PaginatedBusResponse where
  "last_page_of_23 =
     \<lparr> content = [example_bus, example_bus, example_bus], last' = True,
       PaginatedBusResponse.totalElements = 23, PaginatedBusResponse.totalPages = 5,
       size' = 5, number = 4, first = False \<rparr>"

section \<open>Facts about rounding\<close>

lemma nearest_exact:
  assumes "0 \<le> n" and "n \<le> 9007199254740992"
  shows "nearest n = n"
proof (cases "n < 9007199254740992")
  case True
  then have "spacing n = 1"
    by (subst spacing.simps) simp
  then show ?thesis
    by (simp add: nearest_def)
next
  case False
  with assms have n: "n = 9007199254740992" by simp
  have "spacing 4503599627370496 = 1"
    by (subst spacing.simps) simp
  then have "spacing n = 2"
    unfolding n by (subst spacing.simps) simp
  then show ?thesis
    by (simp add: nearest_def n)
qed

lemma to_double_exact: "\<bar>x\<bar> \<le> 9007199254740992 \<Longrightarrow> to_double x = x"
  by (simp add: to_double_def nearest_exact)

lemma js_plus_exact: "\<bar>a + b\<bar> \<le> 9007199254740992 \<Longrightarrow> js_plus a b = a + b"
  by (simp add: js_plus_def to_double_exact)

lemma js_minus_exact: "\<bar>a - b\<bar> \<le> 9007199254740992 \<Longrightarrow> js_minus a b = a - b"
  by (simp add: js_minus_def to_double_exact)

lemma to_number_exact:
  assumes "\<bar>x\<bar> \<le> 9007199254740992"
  shows "to_number x = Finite x"
proof -
  have "(9007199254740992::int) < 2 ^ 1024 - 2 ^ 970"
    by simp
  with assms have "\<not> 2 ^ 1024 - 2 ^ 970 \<le> x" and "\<not> x \<le> - (2 ^ 1024 - 2 ^ 970)"
    by linarith+
  then show ?thesis
    using assms by (simp only: to_number_def to_double_exact if_False)
qed

lemma js_times_exact: "\<bar>a * b\<bar> \<le> 9007199254740992 \<Longrightarrow> js_times a b = Finite (a * b)"
  by (simp add: js_times_def to_number_exact)

text \<open>Beyond \<open>2 ^ 53\<close>: the roundings that the examples below meet.\<close>

lemma rounds_down_above_limit: "to_double 9007199254740993 = 9007199254740992"
  by code_simp

lemma rounds_tie_to_even: "to_double 9007199254740997 = 9007199254740996"
  by code_simp

lemma rounds_product_plus_one: "to_double 45035996273704961 = 45035996273704960"
  by code_simp

lemma exact_product: "to_double 45035996273704960 = 45035996273704960"
  by code_simp

section \<open>Facts about the loops\<close>

lemma push_fits: "length pages < MAX_ARRAY_LENGTH \<Longrightarrow> push pages x = Inr (pages @ [x])"
  by (simp add: push_def)

lemma push_full: "\<not> length pages < MAX_ARRAY_LENGTH \<Longrightarrow> push pages x = Inl RangeError"
  by (simp add: push_def)

lemma push_while_lt_exact:
  assumes "n \<le> 9007199254740992" and "- 9007199254740992 \<le> i"
    and "length pages + nat (n - i) \<le> MAX_ARRAY_LENGTH"
  shows "push_while_lt i n pages = Inr (pages @ [i..n - 1])"
  using assms
proof (induction "nat (n - i)" arbitrary: i pages)
  case 0
  then show ?case
    by (subst push_while_lt.simps) simp
next
  case (Suc k)
  then have lt: "i < n" and fits: "length pages < MAX_ARRAY_LENGTH"
    by linarith+
  from lt Suc.prems have inc: "js_plus i 1 = i + 1"
    by (intro js_plus_exact) linarith
  have "push_while_lt (i + 1) n (pages @ [i]) = Inr ((pages @ [i]) @ [i + 1..n - 1])"
    using Suc by (intro Suc.hyps(1)) auto
  moreover have "[i..n - 1] = i # [i + 1..n - 1]"
    using lt by (simp add: upto_rec1)
  ultimately show ?case
    using lt by (subst push_while_lt.simps) (simp add: push_fits [OF fits] inc)
qed

lemma push_while_le_exact:
  assumes "hi < 9007199254740992" and "- 9007199254740992 \<le> i"
    and "length pages + nat (hi + 1 - i) \<le> MAX_ARRAY_LENGTH"
  shows "push_while_le i hi pages = Inr (pages @ [i..hi])"
  using assms
proof (induction "nat (hi + 1 - i)" arbitrary: i pages)
  case 0
  then show ?case
    by (subst push_while_le.simps) simp
next
  case (Suc k)
  then have le: "i \<le> hi" and fits: "length pages < MAX_ARRAY_LENGTH"
    by linarith+
  from le Suc.prems have inc: "js_plus i 1 = i + 1"
    by (intro js_plus_exact) linarith
  have "push_while_le (i + 1) hi (pages @ [i]) = Inr ((pages @ [i]) @ [i + 1..hi])"
    using Suc by (intro Suc.hyps(1)) auto
  moreover have "[i..hi] = i # [i + 1..hi]"
    using le by (simp add: upto_rec1)
  ultimately show ?case
    using le by (subst push_while_le.simps) (simp add: push_fits [OF fits] inc)
qed

text \<open>A loop whose counter no longer advances fills the array and throws.\<close>

lemma push_while_lt_stuck:
  assumes "js_plus i 1 = i" and "i < n"
  shows "push_while_lt i n pages = Inl RangeError"
proof (induction "MAX_ARRAY_LENGTH - length pages" arbitrary: pages)
  case 0
  then have "\<not> length pages < MAX_ARRAY_LENGTH"
    by simp
  then show ?case
    using assms by (subst push_while_lt.simps) (simp add: push_full)
next
  case (Suc k)
  then have fits: "length pages < MAX_ARRAY_LENGTH"
    by simp
  have "push_while_lt i n (pages @ [i]) = Inl RangeError"
    using Suc by (intro Suc.hyps(1)) simp
  then show ?case
    using assms by (subst push_while_lt.simps) (simp add: push_fits [OF fits])
qed

lemma push_while_le_stuck:
  assumes "js_plus i 1 = i" and "i \<le> hi"
  shows "push_while_le i hi pages = Inl RangeError"
proof (induction "MAX_ARRAY_LENGTH - length pages" arbitrary: pages)
  case 0
  then have "\<not> length pages < MAX_ARRAY_LENGTH"
    by simp
  then show ?case
    using assms by (subst push_while_le.simps) (simp add: push_full)
next
  case (Suc k)
  then have fits: "length pages < MAX_ARRAY_LENGTH"
    by simp
  have "push_while_le i hi (pages @ [i]) = Inl RangeError"
    using Suc by (intro Suc.hyps(1)) simp
  then show ?case
    using assms by (subst push_while_le.simps) (simp add: push_fits [OF fits])
qed

lemma push_while_lt_step:
  assumes "i < n" and "length pages < MAX_ARRAY_LENGTH"
  shows "push_while_lt i n pages = push_while_lt (js_plus i 1) n (pages @ [i])"
  using assms by (subst push_while_lt.simps) (simp add: push_fits)

lemma push_while_le_step:
  assumes "i \<le> hi" and "length pages < MAX_ARRAY_LENGTH"
  shows "push_while_le i hi pages = push_while_le (js_plus i 1) hi (pages @ [i])"
  using assms by (subst push_while_le.simps) (simp add: push_fits)

lemma push_short: "length pages \<le> 8 \<Longrightarrow> push pages x = Inr (pages @ [x])"
  by (simp add: push_def MAX_ARRAY_LENGTH_def)

lemma upto_five: "[n..n + 4] = [n, n + 1, n + 2, n + 3, n + (4::int)]"
  by (simp add: upto_rec1)

lemma upto_three: "[n - 1..n + 1] = [n - 1, n, n + (1::int)]"
  by (simp add: upto_rec1)

lemma first_five: "push_while_lt 0 5 [] = Inr [0, 1, 2, 3, 4]"
  using upto_five [of 0] by (simp add: push_while_lt_exact MAX_ARRAY_LENGTH_def)

lemma last_five:
  assumes "5 \<le> tp" and "tp \<le> 9007199254740992" and "length pages \<le> 2"
  shows "push_while_lt (tp - 5) tp pages =
           Inr (pages @ [tp - 5, tp - 4, tp - 3, tp - 2, tp - 1])"
proof -
  have "push_while_lt (tp - 5) tp pages = Inr (pages @ [tp - 5..tp - 1])"
    using assms by (intro push_while_lt_exact) (simp_all add: MAX_ARRAY_LENGTH_def)
  with upto_five [of "tp - 5"] show ?thesis
    by simp
qed

lemma middle_three:
  assumes "1 \<le> cp" and "cp + 1 < 9007199254740992" and "length pages \<le> 2"
  shows "push_while_le (cp - 1) (cp + 1) pages = Inr (pages @ [cp - 1, cp, cp + 1])"
proof -
  have "push_while_le (cp - 1) (cp + 1) pages = Inr (pages @ [cp - 1..cp + 1])"
    using assms by (intro push_while_le_exact) (simp_all add: MAX_ARRAY_LENGTH_def)
  then show ?thesis
    by (simp only: upto_three)
qed

section \<open>The window of page numbers\<close>

lemma map_int_upt: "map int [0..<n] = [0..int n - 1]"
proof (induction n)
  case 0 show ?case by simp
next
  case (Suc n)
  have "[0..int (Suc n) - 1] = [0..int n - 1] @ [int n]"
    using upto_rec2 [of 0 "int n"] by simp
  with Suc show ?case by simp
qed

lemma Array_from_length_upto: "Array_from_length n = [0..n - 1]"
proof (cases "0 \<le> n")
  case True
  then show ?thesis by (simp add: Array_from_length_def map_int_upt)
next
  case False
  then show ?thesis by (simp add: Array_from_length_def)
qed

lemma window_few_pages: "tp \<le> 7 \<Longrightarrow> getVisiblePages cp tp = Inr [0..tp - 1]"
  by (simp add: getVisiblePages_def Array_from_length_upto)

lemma window_near_start:
  assumes "7 < tp" and "tp \<le> 9007199254740992" and "cp \<le> 2"
  shows "getVisiblePages cp tp = Inr [0, 1, 2, 3, 4, - 1, tp - 1]"
proof -
  have "js_minus tp 1 = tp - 1"
    using assms by (intro js_minus_exact) linarith
  then show ?thesis
    using assms
    by (simp add: getVisiblePages_def and_then_def first_five push_short)
qed

lemma window_near_end:
  assumes "7 < tp" and "tp \<le> 9007199254740992" and "tp - 3 \<le> cp"
  shows "getVisiblePages cp tp = Inr [0, - 1, tp - 5, tp - 4, tp - 3, tp - 2, tp - 1]"
proof -
  have "js_minus tp 3 = tp - 3" and "js_minus tp 5 = tp - 5"
    using assms by (intro js_minus_exact, linarith)+
  moreover have "push_while_lt (tp - 5) tp [0, - 1]
      = Inr ([0, - 1] @ [tp - 5, tp - 4, tp - 3, tp - 2, tp - 1])"
    using assms by (intro last_five) simp_all
  ultimately show ?thesis
    using assms
    by (simp add: getVisiblePages_def and_then_def push_short)
qed

lemma window_middle:
  assumes "7 < tp" and "tp \<le> 9007199254740992" and "2 < cp" and "cp < tp - 3"
  shows "getVisiblePages cp tp = Inr [0, - 1, cp - 1, cp, cp + 1, - 2, tp - 1]"
proof -
  have "js_minus tp 3 = tp - 3" and "js_minus tp 1 = tp - 1"
    and "js_minus cp 1 = cp - 1" and "js_plus cp 1 = cp + 1"
    using assms by (intro js_minus_exact js_plus_exact, linarith)+
  moreover have "push_while_le (cp - 1) (cp + 1) [0, - 1]
      = Inr ([0, - 1] @ [cp - 1, cp, cp + 1])"
    using assms by (intro middle_three) simp_all
  ultimately show ?thesis
    using assms
    by (simp add: getVisiblePages_def and_then_def push_short)
qed

lemma window_exists:
  assumes "tp \<le> 9007199254740992"
  shows "\<exists>pages. getVisiblePages cp tp = Inr pages"
proof -
  consider "tp \<le> 7" | "7 < tp" "cp \<le> 2" | "7 < tp" "2 < cp" "tp - 3 \<le> cp"
    | "7 < tp" "2 < cp" "cp < tp - 3"
    by linarith
  then show ?thesis
  proof cases
    case 1
    then show ?thesis by (simp add: window_few_pages)
  next
    case 2
    with assms show ?thesis by (simp add: window_near_start)
  next
    case 3
    with assms show ?thesis by (simp add: window_near_end)
  next
    case 4
    with assms show ?thesis by (simp add: window_middle)
  qed
qed

lemma show_nat_digit: "n < 10 \<Longrightarrow> show_nat n = [digit_char n]"
  by (subst show_nat.simps) simp

lemma upt_seven: "[0..<7] = [0, 1, 2, 3, 4, 5, 6::nat]"
  by (simp add: upt_rec)

lemma two53: "(2::int) ^ 53 = 9007199254740992"
  by simp

text \<open>
  C5. With at most seven pages the window is every page index from 0 to the last, in
  ascending order, with no ellipsis; it has as many entries as there are pages (and none
  for a page count below zero, which the platform clamps).
\<close>

theorem getVisiblePages_few_pages:
  assumes "tp \<le> 7"
  shows "\<exists>pages. getVisiblePages cp tp = Inr pages
           \<and> pages = [0..tp - 1]
           \<and> int (length pages) = max 0 tp
           \<and> sorted_wrt (<) pages
           \<and> filter is_ellipsis pages = []"
proof -
  have eq: "getVisiblePages cp tp = Inr [0..tp - 1]"
    using assms by (rule window_few_pages)
  have "\<not> is_ellipsis p" if "p \<in> set [0..tp - 1]" for p
    using that by (simp add: is_ellipsis_def)
  then have "filter is_ellipsis [0..tp - 1] = []"
    by (simp add: filter_empty_conv)
  then show ?thesis
    by (simp add: eq sorted_wrt_upto)
qed

theorem getVisiblePages_few_pages_witness:
  "(7::int) \<le> 7 \<and> getVisiblePages 3 7 = Inr [0, 1, 2, 3, 4, 5, 6]"
  using getVisiblePages_few_pages [of 7 3] by (auto simp add: upto_rec1)

text \<open>
  C3, as amended. Near the start: with more than seven and at most \<open>2 ^ 53\<close> pages and
  the current page at most 2, the window is the five indices 0 to 4, one ellipsis, then
  the last index.
\<close>

theorem getVisiblePages_near_start:
  assumes "7 < tp" and "tp \<le> 2 ^ 53" and "cp \<le> 2"
  shows "\<exists>pages. getVisiblePages cp tp = Inr pages
           \<and> pages = [0, 1, 2, 3, 4, - 1, tp - 1]
           \<and> filter is_ellipsis pages = [- 1]"
proof -
  have eq: "getVisiblePages cp tp = Inr [0, 1, 2, 3, 4, - 1, tp - 1]"
    using assms by (intro window_near_start) (simp_all add: two53)
  have "filter is_ellipsis [0, 1, 2, 3, 4, - 1, tp - 1] = [- 1]"
    using assms by (simp add: is_ellipsis_def)
  with eq show ?thesis by simp
qed

theorem getVisiblePages_near_start_witness:
  "(7::int) < 10 \<and> (10::int) \<le> 2 ^ 53 \<and> (0::int) \<le> 2
   \<and> getVisiblePages 0 10 = Inr [0, 1, 2, 3, 4, - 1, 9]"
  using getVisiblePages_near_start [of 10 0] by auto

text \<open>
  C3 as stated fails beyond \<open>2 ^ 53\<close>: with \<open>2 ^ 53 + 2\<close> pages, line 55 pushes
  \<^verbatim>\<open>totalPages - 1\<close> rounded, which is \<open>2 ^ 53\<close> and not the last index \<open>2 ^ 53 + 1\<close>.
\<close>

theorem getVisiblePages_near_start_counterexample:
  "(7::int) < 9007199254740994 \<and> (0::int) \<le> 2
   \<and> getVisiblePages 0 9007199254740994 = Inr [0, 1, 2, 3, 4, - 1, 9007199254740992]
   \<and> getVisiblePages 0 9007199254740994 \<noteq> Inr [0, 1, 2, 3, 4, - 1, 9007199254740994 - 1]"
  by (simp add: getVisiblePages_def and_then_def first_five push_short js_minus_def
      rounds_down_above_limit)

text \<open>
  C4, as amended. Near the end: with more than seven and at most \<open>2 ^ 53\<close> pages and
  the current page at least the page count minus 3, the window is the first index, one
  ellipsis, then the last five indices.
\<close>

theorem getVisiblePages_near_end:
  assumes "7 < tp" and "tp \<le> 2 ^ 53" and "tp - 3 \<le> cp"
  shows "\<exists>pages. getVisiblePages cp tp = Inr pages
           \<and> pages = [0, - 1, tp - 5, tp - 4, tp - 3, tp - 2, tp - 1]
           \<and> filter is_ellipsis pages = [- 1]"
proof -
  have eq: "getVisiblePages cp tp = Inr [0, - 1, tp - 5, tp - 4, tp - 3, tp - 2, tp - 1]"
    using assms by (intro window_near_end) (simp_all add: two53)
  have "filter is_ellipsis [0, - 1, tp - 5, tp - 4, tp - 3, tp - 2, tp - 1] = [- 1]"
    using assms by (simp add: is_ellipsis_def)
  with eq show ?thesis by simp
qed

theorem getVisiblePages_near_end_witness:
  "(7::int) < 10 \<and> (10::int) \<le> 2 ^ 53 \<and> (10::int) - 3 \<le> 9
   \<and> getVisiblePages 9 10 = Inr [0, - 1, 5, 6, 7, 8, 9]"
  using getVisiblePages_near_end [of 10 9] by auto

text \<open>
  Beyond \<open>2 ^ 53\<close> the counter of the loop of line 59 reaches \<open>2 ^ 53\<close>, where
  \<^verbatim>\<open>i++\<close> rounds back to \<open>2 ^ 53\<close>: with \<open>2 ^ 53 + 2\<close> pages the loop never gets past
  it and fills the array.
\<close>

lemma last_five_stuck:
  "push_while_lt 9007199254740989 9007199254740994 [0, - 1] = Inl RangeError"
proof -
  have "push_while_lt 9007199254740989 9007199254740994 [0, - 1]
      = push_while_lt 9007199254740990 9007199254740994 [0, - 1, 9007199254740989]"
    using push_while_lt_step [of 9007199254740989 9007199254740994 "[0, - 1]"]
    by (simp add: js_plus_exact MAX_ARRAY_LENGTH_def)
  also have "\<dots> = push_while_lt 9007199254740991 9007199254740994
      [0, - 1, 9007199254740989, 9007199254740990]"
    using push_while_lt_step [of 9007199254740990 9007199254740994
        "[0, - 1, 9007199254740989]"]
    by (simp add: js_plus_exact MAX_ARRAY_LENGTH_def)
  also have "\<dots> = push_while_lt 9007199254740992 9007199254740994
      [0, - 1, 9007199254740989, 9007199254740990, 9007199254740991]"
    using push_while_lt_step [of 9007199254740991 9007199254740994
        "[0, - 1, 9007199254740989, 9007199254740990]"]
    by (simp add: js_plus_exact MAX_ARRAY_LENGTH_def)
  also have "\<dots> = Inl RangeError"
    by (rule push_while_lt_stuck) (simp_all add: js_plus_def rounds_down_above_limit)
  finally show ?thesis .
qed

text \<open>
  C4 as stated fails beyond \<open>2 ^ 53\<close>: with \<open>2 ^ 53 + 2\<close> pages and the current page
  equal to that count, the call ends in a \<^verbatim>\<open>RangeError\<close> instead of a window.
\<close>

theorem getVisiblePages_near_end_counterexample:
  "(7::int) < 9007199254740994 \<and> (9007199254740994::int) - 3 \<le> 9007199254740994
   \<and> getVisiblePages 9007199254740994 9007199254740994 = Inl RangeError"
  by (simp add: getVisiblePages_def and_then_def push_short js_minus_exact last_five_stuck)

text \<open>
  C1, as amended. In the middle: with more than seven and at most \<open>2 ^ 53\<close> pages and
  the current page above 2 and below the page count minus 3, the window is the first
  index, an ellipsis, the current page with its two neighbours, a second ellipsis and the
  last index. The two ellipses are different entries (-1 and -2), and the spans drawn for
  them carry different keys.
\<close>

theorem getVisiblePages_middle:
  assumes "7 < tp" and "tp \<le> 2 ^ 53" and "2 < cp" and "cp < tp - 3"
  shows "\<exists>pages. getVisiblePages cp tp = Inr pages
           \<and> pages = [0, - 1, cp - 1, cp, cp + 1, - 2, tp - 1]
           \<and> filter is_ellipsis pages = [- 1, - 2]
           \<and> ellipsis_keys (render_pages cp loading pages) = [''ellipsis-1'', ''ellipsis-5'']
           \<and> distinct (ellipsis_keys (render_pages cp loading pages))"
proof -
  let ?pages = "[0, - 1, cp - 1, cp, cp + 1, - 2, tp - 1]"
  have eq: "getVisiblePages cp tp = Inr ?pages"
    using assms by (intro window_middle) (simp_all add: two53)
  have fl: "filter is_ellipsis ?pages = [- 1, - 2]"
    using assms by (simp add: is_ellipsis_def)
  have keys: "ellipsis_keys (render_pages cp loading ?pages) = [''ellipsis-1'', ''ellipsis-5'']"
    using assms
    by (simp add: render_pages_def render_page_def upt_seven show_nat_digit digit_char_def)
  have "distinct [''ellipsis-1'', ''ellipsis-5'']"
    by simp
  with eq fl keys show ?thesis
    by (intro exI [of _ ?pages]) (simp only: simp_thms)
qed

theorem getVisiblePages_middle_witness:
  "(7::int) < 10 \<and> (10::int) \<le> 2 ^ 53 \<and> (2::int) < 5 \<and> (5::int) < 10 - 3
   \<and> getVisiblePages 5 10 = Inr [0, - 1, 4, 5, 6, - 2, 9]
   \<and> filter is_ellipsis [0, - 1, 4, 5, 6, - 2, 9] = [- 1, - 2]
   \<and> ellipsis_keys (render_pages 5 False [0, - 1, 4, 5, 6, - 2, 9])
       = [''ellipsis-1'', ''ellipsis-5'']"
proof -
  have h: "(7::int) < 10" "(10::int) \<le> 2 ^ 53" "(2::int) < 5" "(5::int) < 10 - 3"
    by simp_all
  from getVisiblePages_middle [OF h, of False]
  obtain pages where p: "getVisiblePages 5 10 = Inr pages"
    "pages = [0, - 1, 5 - 1, 5, 5 + 1, - 2, 10 - 1]"
    "filter is_ellipsis pages = [- 1, - 2]"
    "ellipsis_keys (render_pages 5 False pages) = [''ellipsis-1'', ''ellipsis-5'']"
    by blast
  from p(2) have q: "pages = [0, - 1, 4, 5, 6, - 2, 9]"
    by simp
  from p(1) p(3) p(4) show ?thesis
    unfolding q using h by (simp only: simp_thms)
qed

text \<open>
  C1 as stated fails beyond \<open>2 ^ 53\<close>: with the current page \<open>2 ^ 53\<close> of \<open>2 ^ 53 + 8\<close>
  pages, the bound \<^verbatim>\<open>currentPage + 1\<close> of the loop of line 63 rounds to \<open>2 ^ 53\<close> and
  so does \<^verbatim>\<open>i++\<close>; the call ends in a \<^verbatim>\<open>RangeError\<close> instead of a window.
\<close>

theorem getVisiblePages_middle_counterexample:
  "(7::int) < 9007199254741000 \<and> (2::int) < 9007199254740992
   \<and> (9007199254740992::int) < 9007199254741000 - 3
   \<and> getVisiblePages 9007199254740992 9007199254741000 = Inl RangeError"
proof -
  have "push_while_le 9007199254740991 9007199254740992 [0, - 1]
      = push_while_le 9007199254740992 9007199254740992 [0, - 1, 9007199254740991]"
    using push_while_le_step [of 9007199254740991 9007199254740992 "[0, - 1]"]
    by (simp add: js_plus_exact MAX_ARRAY_LENGTH_def)
  also have "\<dots> = Inl RangeError"
    by (rule push_while_le_stuck) (simp_all add: js_plus_def rounds_down_above_limit)
  finally show ?thesis
    by (simp add: getVisiblePages_def and_then_def push_short js_minus_def js_plus_def
        rounds_tie_to_even rounds_down_above_limit to_double_exact)
qed

text \<open>
  C10, as amended. With more than seven and at most \<open>2 ^ 53\<close> pages and a current page
  within range, the window has exactly seven entries, and the first index, the current
  page and the last index are among its entries that are not ellipses.
\<close>

theorem getVisiblePages_seven_entries:
  assumes "7 < tp" and "tp \<le> 2 ^ 53" and "0 \<le> cp" and "cp < tp"
  shows "\<exists>pages. getVisiblePages cp tp = Inr pages
           \<and> length pages = 7
           \<and> {0, cp, tp - 1} \<subseteq> set (filter (\<lambda>page. \<not> is_ellipsis page) pages)"
proof -
  have b: "tp \<le> 9007199254740992"
    using assms by (simp add: two53)
  consider (start) "cp \<le> 2" | (ending) "2 < cp" "tp - 3 \<le> cp" | (middle) "2 < cp" "cp < tp - 3"
    by linarith
  then show ?thesis
  proof cases
    case start
    with assms have "cp = 0 \<or> cp = 1 \<or> cp = 2" by linarith
    with assms show ?thesis
      by (auto simp add: window_near_start [OF assms(1) b start] is_ellipsis_def)
  next
    case ending
    with assms have "cp = tp - 3 \<or> cp = tp - 2 \<or> cp = tp - 1" by linarith
    with assms show ?thesis
      by (auto simp add: window_near_end [OF assms(1) b ending(2)] is_ellipsis_def)
  next
    case middle
    with assms show ?thesis
      by (simp add: window_middle [OF assms(1) b middle] is_ellipsis_def)
  qed
qed

theorem getVisiblePages_seven_entries_witness:
  "(7::int) < 10 \<and> (10::int) \<le> 2 ^ 53 \<and> (0::int) \<le> 5 \<and> (5::int) < 10
   \<and> (\<exists>pages. getVisiblePages 5 10 = Inr pages \<and> length pages = 7
         \<and> {0, 5, 9} \<subseteq> set (filter (\<lambda>page. \<not> is_ellipsis page) pages))"
  using getVisiblePages_seven_entries [of 10 5] by simp

text \<open>
  C10 as stated fails beyond \<open>2 ^ 53\<close>: with the current page \<open>2 ^ 53\<close> of \<open>2 ^ 53 + 2\<close>
  pages, within range, the call ends in a \<^verbatim>\<open>RangeError\<close> and returns no entries at all.
\<close>

theorem getVisiblePages_seven_entries_counterexample:
  "(7::int) < 9007199254740994 \<and> (0::int) \<le> 9007199254740992
   \<and> (9007199254740992::int) < 9007199254740994
   \<and> getVisiblePages 9007199254740992 9007199254740994 = Inl RangeError"
  by (simp add: getVisiblePages_def and_then_def push_short js_minus_exact last_five_stuck)

section \<open>The range text\<close>

lemma Pagination_renders:
  assumes "1 < tp" and "getVisiblePages cp tp = Inr pages"
  shows "\<exists>v. Pagination cp tp te psp ld = Inr (Some v)
           \<and> shown_start v
               = number_plus (js_times cp (case psp of None \<Rightarrow> 5 | Some n \<Rightarrow> n)) 1
           \<and> shown_end v
               = Math_min (js_times (js_plus cp 1) (case psp of None \<Rightarrow> 5 | Some n \<Rightarrow> n)) te"
  using assms by (simp add: Pagination_def Let_def and_then_def)

lemma Pagination_shows:
  assumes "Pagination cp tp te psp ld = Inr (Some v)"
  shows "shown_start v = number_plus (js_times cp (case psp of None \<Rightarrow> 5 | Some n \<Rightarrow> n)) 1
         \<and> shown_end v
             = Math_min (js_times (js_plus cp 1) (case psp of None \<Rightarrow> 5 | Some n \<Rightarrow> n)) te"
  using assms
  by (auto simp add: Pagination_def Let_def and_then_def split: if_splits sum.splits)

text \<open>
  C6, as amended. Whenever the component renders and the sums and products of the two
  formulas stay within \<open>2 ^ 53\<close> in magnitude, the range it shows starts at the current
  page times the page size plus one and ends at the smaller of the next page times the
  page size and the number of elements; the page size is 5 when the prop is absent. The
  component renders whenever there are more than one and at most \<open>2 ^ 53\<close> pages.
\<close>

theorem Pagination_range:
  assumes "ps = (case psp of None \<Rightarrow> 5 | Some n \<Rightarrow> n)"
    and "\<bar>cp * ps\<bar> \<le> 2 ^ 53" and "\<bar>cp * ps + 1\<bar> \<le> 2 ^ 53"
    and "\<bar>cp + 1\<bar> \<le> 2 ^ 53" and "\<bar>(cp + 1) * ps\<bar> \<le> 2 ^ 53"
  shows "(\<forall>v. Pagination cp tp te psp ld = Inr (Some v) \<longrightarrow>
            shown_start v = Finite (cp * ps + 1)
            \<and> shown_end v = Finite (min ((cp + 1) * ps) te))
         \<and> (1 < tp \<and> tp \<le> 2 ^ 53 \<longrightarrow> (\<exists>v. Pagination cp tp te psp ld = Inr (Some v)))"
proof -
  have start: "number_plus (js_times cp ps) 1 = Finite (cp * ps + 1)"
    using assms by (simp add: js_times_exact js_plus_exact two53)
  have end': "Math_min (js_times (js_plus cp 1) ps) te = Finite (min ((cp + 1) * ps) te)"
    using assms by (simp add: js_times_exact js_plus_exact two53)
  have "\<exists>v. Pagination cp tp te psp ld = Inr (Some v)" if "1 < tp" and "tp \<le> 2 ^ 53"
  proof -
    from that obtain pages where "getVisiblePages cp tp = Inr pages"
      using window_exists [of tp cp] by (auto simp add: two53)
    with that show ?thesis
      using Pagination_renders [of tp cp pages te psp ld] by blast
  qed
  moreover have "shown_start v = Finite (cp * ps + 1)
      \<and> shown_end v = Finite (min ((cp + 1) * ps) te)"
    if "Pagination cp tp te psp ld = Inr (Some v)" for v
    using Pagination_shows [OF that] start end' assms(1) by simp
  ultimately show ?thesis
    by blast
qed

theorem Pagination_range_witness:
  "(5::int) = (case Some 5 of None \<Rightarrow> 5 | Some n \<Rightarrow> n)
   \<and> \<bar>1 * 5 :: int\<bar> \<le> 2 ^ 53 \<and> \<bar>1 * 5 + 1 :: int\<bar> \<le> 2 ^ 53
   \<and> \<bar>1 + 1 :: int\<bar> \<le> 2 ^ 53 \<and> \<bar>(1 + 1) * 5 :: int\<bar> \<le> 2 ^ 53
   \<and> (1::int) < 5 \<and> (5::int) \<le> 2 ^ 53
   \<and> (\<exists>v. Pagination 1 5 23 (Some 5) None = Inr (Some v)
         \<and> shown_start v = Finite 6 \<and> shown_end v = Finite 10)"
  using Pagination_range [of 5 "Some 5" 1 5 23 None] by auto

text \<open>
  C6 as stated fails beyond \<open>2 ^ 53\<close>: for the current page \<open>2 ^ 53\<close> and the page size
  5 the component shows the start \<open>5 * 2 ^ 53\<close>, because adding one to the product
  rounds back to it.
\<close>

theorem Pagination_range_counterexample:
  "map_sum id (map_option shown_start) (Pagination 9007199254740992 8 23 (Some 5) None)
     = Inr (Some (Finite 45035996273704960))
   \<and> map_sum id (map_option shown_start) (Pagination 9007199254740992 8 23 (Some 5) None)
     \<noteq> Inr (Some (Finite (9007199254740992 * 5 + 1)))"
proof -
  have "getVisiblePages 9007199254740992 8 = Inr [0, - 1, 8 - 5, 8 - 4, 8 - 3, 8 - 2, 8 - 1]"
    by (intro window_near_end) simp_all
  then obtain v where v: "Pagination 9007199254740992 8 23 (Some 5) None = Inr (Some v)"
    and "shown_start v = number_plus (js_times 9007199254740992 5) 1"
    using Pagination_renders [of 8 9007199254740992 _ 23 "Some 5" None] by auto
  moreover have "js_times 9007199254740992 5 = Finite 45035996273704960"
    by (simp add: js_times_def to_number_def exact_product)
  ultimately have "shown_start v = Finite 45035996273704960"
    by (simp add: js_plus_def rounds_product_plus_one)
  with v show ?thesis
    by simp
qed

section \<open>The request wrapper: state and trace of a call\<close>

lemma request_unfold:
  "request P net endpoint options s =
     (let t = next_timer s;
          s1 = log_event (SetTimeout t TIMEOUT) (s\<lparr>armed := t # armed s, next_timer := Suc t\<rparr>);
          (r, s2) = try_block P net endpoint options t t s1;
          (r', s3) = (case r of
                        Inl error \<Rightarrow> (Inl error, log_event (ConsoleError error) s2)
                      | Inr p \<Rightarrow> (p, s2))
      in (r', clearTimeout t s3))"
  by (simp add: request_def timeoutSignal_def setTimeout_def Let_def split: prod.splits)

lemma try_block_armed:
  "armed (snd (try_block P net endpoint options sg t s)) = armed s
   \<or> armed (snd (try_block P net endpoint options sg t s)) = removeAll t (armed s)"
  by (auto simp add: try_block_def throw_http_error_def log_event_def timer_fires_def Let_def
      split: fetch_outcome.splits read_event.splits prod.splits option.splits)

lemma try_block_trace:
  "\<exists>es. trace (snd (try_block P net endpoint options sg t s))
      = trace s @ Fetch (buildURL P endpoint) (fetch_arguments P options sg) # es"
  by (auto simp add: try_block_def throw_http_error_def log_event_def timer_fires_def Let_def
      split: fetch_outcome.splits read_event.splits prod.splits option.splits)

lemma request_snd:
  "snd (request P net endpoint options s) =
     clearTimeout (next_timer s)
       (case fst (try_block P net endpoint options (next_timer s) (next_timer s) (started s)) of
          Inl error \<Rightarrow>
            log_event (ConsoleError error)
              (snd (try_block P net endpoint options (next_timer s) (next_timer s) (started s)))
        | Inr p \<Rightarrow> snd (try_block P net endpoint options (next_timer s) (next_timer s) (started s)))"
  by (simp add: request_unfold started_def Let_def split: prod.splits sum.splits)

lemma armed_log_event: "armed (log_event e s) = armed s"
  by (simp add: log_event_def)

lemma trace_log_event: "trace (log_event e s) = trace s @ [e]"
  by (simp add: log_event_def)

lemma armed_clearTimeout: "armed (clearTimeout t s) = removeAll t (armed s)"
  by (simp add: clearTimeout_def log_event_def)

lemma trace_clearTimeout: "trace (clearTimeout t s) = trace s @ [ClearTimeout t]"
  by (simp add: clearTimeout_def log_event_def)

lemma request_armed:
  "armed (snd (request P net endpoint options s)) = removeAll (next_timer s) (armed s)"
proof -
  let ?t = "next_timer s"
  let ?tb = "try_block P net endpoint options ?t ?t (started s)"
  have "armed (started s) = ?t # armed s"
    by (simp add: started_def log_event_def)
  then have "removeAll ?t (armed (snd ?tb)) = removeAll ?t (armed s)"
    using try_block_armed [of P net endpoint options ?t ?t "started s"] by auto
  then show ?thesis
    by (cases "fst ?tb") (simp_all add: request_snd armed_log_event armed_clearTimeout)
qed

lemma request_trace:
  "\<exists>es. trace (snd (request P net endpoint options s))
      = trace s @ [SetTimeout (next_timer s) TIMEOUT,
                   Fetch (buildURL P endpoint) (fetch_arguments P options (next_timer s))]
          @ es @ [ClearTimeout (next_timer s)]"
proof -
  let ?t = "next_timer s"
  let ?tb = "try_block P net endpoint options ?t ?t (started s)"
  have st: "trace (started s) = trace s @ [SetTimeout ?t TIMEOUT]"
    by (simp add: started_def log_event_def)
  obtain es where es: "trace (snd ?tb)
      = trace (started s) @ Fetch (buildURL P endpoint) (fetch_arguments P options ?t) # es"
    using try_block_trace [of P net endpoint options ?t ?t "started s"] by blast
  show ?thesis
  proof (cases "fst ?tb")
    case (Inl error)
    then have "trace (snd (request P net endpoint options s))
      = trace s @ [SetTimeout ?t TIMEOUT,
                   Fetch (buildURL P endpoint) (fetch_arguments P options ?t)]
          @ (es @ [ConsoleError error]) @ [ClearTimeout ?t]"
      by (simp add: request_snd trace_clearTimeout trace_log_event es st)
    then show ?thesis by blast
  next
    case (Inr p)
    then have "trace (snd (request P net endpoint options s))
      = trace s @ [SetTimeout ?t TIMEOUT,
                   Fetch (buildURL P endpoint) (fetch_arguments P options ?t)]
          @ es @ [ClearTimeout ?t]"
      by (simp add: request_snd trace_clearTimeout es st)
    then show ?thesis by blast
  qed
qed

lemma request_timed_out:
  "fst (request P FetchTimedOut endpoint options s) = Inl AbortError"
  by (simp add: request_unfold try_block_def Let_def)

text \<open>
  C8. On every path through a call (it resolves, it fails with an HTTP error, the
  platform throws, the timer fires) the timer that the call set, armed when the
  \<^verbatim>\<open>try\<close> block starts, is not armed when the call completes: the armed timers are
  those from before the call, the first event of the call sets the timer and its last
  event clears it. A call whose fetch outlasts the timer fails with the abort error of
  the platform.
\<close>

theorem request_clears_timer:
  "next_timer s \<in> set (armed (started s))
   \<and> next_timer s \<notin> set (armed (snd (request P net endpoint options s)))
   \<and> armed (snd (request P net endpoint options s)) = removeAll (next_timer s) (armed s)
   \<and> (\<exists>es. events_of P net endpoint options s
         = [SetTimeout (next_timer s) TIMEOUT,
            Fetch (buildURL P endpoint) (fetch_arguments P options (next_timer s))]
           @ es @ [ClearTimeout (next_timer s)])
   \<and> fst (request P FetchTimedOut endpoint options s) = Inl AbortError"
proof -
  obtain es where "trace (snd (request P net endpoint options s))
      = trace s @ [SetTimeout (next_timer s) TIMEOUT,
                   Fetch (buildURL P endpoint) (fetch_arguments P options (next_timer s))]
          @ es @ [ClearTimeout (next_timer s)]"
    using request_trace by blast
  then have "events_of P net endpoint options s
      = [SetTimeout (next_timer s) TIMEOUT,
         Fetch (buildURL P endpoint) (fetch_arguments P options (next_timer s))]
        @ es @ [ClearTimeout (next_timer s)]"
    by (simp add: events_of_def)
  moreover have "next_timer s \<in> set (armed (started s))"
    by (simp add: started_def armed_log_event)
  ultimately show ?thesis
    by (simp add: request_armed request_timed_out)
qed

theorem request_clears_timer_witness:
  "fst (request example_platform FetchTimedOut ''/api/v1/buses'' no_options initial_state)
     = Inl AbortError
   \<and> armed (snd (request example_platform FetchTimedOut ''/api/v1/buses'' no_options
        initial_state)) = []"
  using request_clears_timer
    [where s = initial_state and P = example_platform and net = FetchTimedOut
       and endpoint = "''/api/v1/buses''" and options = no_options]
  by (simp add: initial_state_def)

section \<open>The request wrapper: responses\<close>

lemma request_204:
  assumes "ok res" and "status res = 204"
  shows "request P (FetchResponds res) endpoint options s =
           (Inr Undefined,
            clearTimeout (next_timer s)
              (log_event (Fetch (buildURL P endpoint) (fetch_arguments P options (next_timer s)))
                (log_event (SetTimeout (next_timer s) TIMEOUT)
                  (s\<lparr>armed := next_timer s # armed s, next_timer := Suc (next_timer s)\<rparr>))))"
  using assms by (simp add: request_unfold try_block_def Let_def)

text \<open>
  C7. A response that is ok and has status 204 resolves the call to \<^verbatim>\<open>undefined\<close>.
  The call sets the timer, fetches and clears the timer, and does nothing else: it
  neither reads the body as text or JSON nor parses anything, whatever the headers and
  the body are.
\<close>

theorem request_no_content:
  assumes "ok res" and "status res = 204"
  shows "fst (request P (FetchResponds res) endpoint options s) = Inr Undefined
         \<and> events_of P (FetchResponds res) endpoint options s
             = [SetTimeout (next_timer s) TIMEOUT,
                Fetch (buildURL P endpoint) (fetch_arguments P options (next_timer s)),
                ClearTimeout (next_timer s)]
         \<and> ResText \<notin> set (events_of P (FetchResponds res) endpoint options s)
         \<and> ResJson \<notin> set (events_of P (FetchResponds res) endpoint options s)
         \<and> (\<forall>text. JSONParse text \<notin> set (events_of P (FetchResponds res) endpoint options s))"
proof -
  have ev: "events_of P (FetchResponds res) endpoint options s
             = [SetTimeout (next_timer s) TIMEOUT,
                Fetch (buildURL P endpoint) (fetch_arguments P options (next_timer s)),
                ClearTimeout (next_timer s)]"
    by (simp add: events_of_def request_204 [OF assms] clearTimeout_def log_event_def)
  show ?thesis
    by (simp add: ev request_204 [OF assms])
qed

theorem request_no_content_witness:
  "ok no_content_response \<and> status no_content_response = 204
   \<and> fst (request example_platform (FetchResponds no_content_response) ''/api/v1/buses/7''
            no_options initial_state) = Inr Undefined"
proof -
  have h: "ok no_content_response" "status no_content_response = 204"
    by (simp_all add: no_content_response_def)
  from request_no_content [OF h, of example_platform "''/api/v1/buses/7''" no_options initial_state]
  show ?thesis using h by simp
qed

lemma request_not_ok:
  assumes "\<not> ok res" and "read res = ReadCompletes"
  shows "request P (FetchResponds res) endpoint options s =
          (let t = next_timer s;
               text = body_text res;
               error = HttpError (if text \<noteq> [] then text else statusText res) (status res)
                        (if text \<noteq> [] then spec_error_data P text else DataNull)
           in (Inl error,
               s\<lparr>armed := removeAll t (t # armed s), next_timer := Suc t,
                 trace := trace s @ [SetTimeout t TIMEOUT,
                            Fetch (buildURL P endpoint) (fetch_arguments P options t), ResText]
                          @ (if text \<noteq> [] then [JSONParse text] else [])
                          @ [ConsoleError error, ClearTimeout t]\<rparr>))"
  using assms
  by (simp add: request_unfold try_block_def throw_http_error_def Let_def spec_error_data_def
      clearTimeout_def log_event_def)

text \<open>
  C2, as amended. A response that is not ok, whose body could be read, fails the call
  with an error whose message is the text of the body, or the status text when the body
  is empty, whose status is the status of the response, and whose data is \<^verbatim>\<open>null\<close>
  when the body is empty and otherwise the parsed body when parsing succeeds and the raw
  text when it does not. The body is parsed only when it is not empty.
\<close>

theorem request_http_error:
  assumes "\<not> ok res" and "read res = ReadCompletes"
  shows "fst (request P (FetchResponds res) endpoint options s)
           = Inl (HttpError (if body_text res = [] then statusText res else body_text res)
                    (status res)
                    (if body_text res = [] then DataNull else spec_error_data P (body_text res)))
         \<and> events_of P (FetchResponds res) endpoint options s
             = [SetTimeout (next_timer s) TIMEOUT,
                Fetch (buildURL P endpoint) (fetch_arguments P options (next_timer s)),
                ResText]
               @ (if body_text res = [] then [] else [JSONParse (body_text res)])
               @ [ConsoleError
                    (HttpError (if body_text res = [] then statusText res else body_text res)
                       (status res)
                       (if body_text res = [] then DataNull
                        else spec_error_data P (body_text res))),
                  ClearTimeout (next_timer s)]"
  by (simp add: events_of_def request_not_ok [OF assms] Let_def)

theorem request_http_error_witness:
  "\<not> ok (error_response 404 ''Not Found'' ''{\"error\":\"not found\"}'')
   \<and> read (error_response 404 ''Not Found'' ''{\"error\":\"not found\"}'') = ReadCompletes
   \<and> fst (request example_platform
            (FetchResponds (error_response 404 ''Not Found'' ''{\"error\":\"not found\"}''))
            ''/api/v1/buses/7'' no_options initial_state)
       = Inl (HttpError ''{\"error\":\"not found\"}'' 404
                (DataParsed (JObject [(''error'', JString ''not found'')])))"
proof -
  let ?res = "error_response 404 ''Not Found'' ''{\"error\":\"not found\"}''"
  have h: "\<not> ok ?res" "read ?res = ReadCompletes"
    by (simp_all add: error_response_def)
  have "spec_error_data example_platform (body_text ?res)
          = DataParsed (JObject [(''error'', JString ''not found'')])"
    by (simp add: spec_error_data_def example_platform_def example_parse_def error_response_def)
  with request_http_error [OF h, of example_platform "''/api/v1/buses/7''" no_options initial_state]
  show ?thesis using h by (simp add: error_response_def)
qed

text \<open>
  A body that is not JSON is carried as raw text.
\<close>

lemma raw_text_error_payload:
  "fst (request example_platform (FetchResponds (error_response 404 ''Not Found'' ''Not Found''))
         ''/api/v1/buses/7'' no_options initial_state)
     = Inl (HttpError ''Not Found'' 404 (DataText ''Not Found''))"
  by (simp add: request_not_ok error_response_def Let_def spec_error_data_def
      example_platform_def example_parse_def)

text \<open>
  C2 as stated fails on an empty body: the data of the error is \<^verbatim>\<open>null\<close>, not the
  raw (empty) text, and no parsing is attempted.
\<close>

theorem request_http_error_empty_body_counterexample:
  "fst (request example_platform
         (FetchResponds (error_response 500 ''Internal Server Error'' ''''))
         ''/api/v1/buses'' no_options initial_state)
     \<noteq> Inl (HttpError ''Internal Server Error'' 500 (spec_error_data example_platform ''''))
   \<and> fst (request example_platform
         (FetchResponds (error_response 500 ''Internal Server Error'' ''''))
         ''/api/v1/buses'' no_options initial_state)
     = Inl (HttpError ''Internal Server Error'' 500 DataNull)
   \<and> spec_error_data example_platform '''' = DataText ''''
   \<and> JSONParse '''' \<notin> set (events_of example_platform
         (FetchResponds (error_response 500 ''Internal Server Error'' ''''))
         ''/api/v1/buses'' no_options initial_state)"
  by (simp add: request_not_ok error_response_def Let_def spec_error_data_def events_of_def
      example_platform_def example_parse_def initial_state_def)

section \<open>The paginated result\<close>

lemma ceil_div_ceiling: "ceil_div a b = \<lceil>real_of_int a / real_of_int b\<rceil>"
proof -
  have "\<lceil>real_of_int a / real_of_int b\<rceil> = - \<lfloor>real_of_int (- a) / real_of_int b\<rfloor>"
    by (simp add: ceiling_def)
  also have "\<dots> = - ((- a) div b)"
    by (simp only: floor_divide_of_int_eq)
  finally show ?thesis
    by (simp add: ceil_div_def)
qed

lemma toPaginatedResult_fields:
  "buses (toPaginatedResult response) = map toEntityFromResource (content response)"
  "totalElements (toPaginatedResult response) = PaginatedBusResponse.totalElements response"
  "totalPages (toPaginatedResult response) = PaginatedBusResponse.totalPages response"
  "currentPage (toPaginatedResult response) = number response"
  "pageSize (toPaginatedResult response) = size' response"
  "isFirst (toPaginatedResult response) = first response"
  "isLast (toPaginatedResult response) = last' response"
  by (simp_all add: toPaginatedResult_def toEntitiesFromPaginatedResponse_def)

text \<open>
  C9, as amended. The result of \<^verbatim>\<open>getPaginated\<close> carries the page metadata of the
  response of the server unchanged, so it satisfies the invariants of the page metadata
  exactly when the response does; the client neither checks nor restores them.
\<close>

theorem getPaginated_relays_metadata:
  assumes "awaited = Inr response"
  shows "\<exists>result. getPaginated awaited = Inr result
           \<and> totalElements result = PaginatedBusResponse.totalElements response
           \<and> totalPages result = PaginatedBusResponse.totalPages response
           \<and> currentPage result = number response
           \<and> pageSize result = size' response
           \<and> isFirst result = first response
           \<and> isLast result = last' response
           \<and> (result_invariants result \<longleftrightarrow> response_invariants response)"
  using assms
  by (simp add: getPaginated_def toPaginatedResult_fields result_invariants_def
      response_invariants_def)

theorem getPaginated_relays_metadata_witness:
  "response_invariants last_page_of_23
   \<and> (\<exists>result. getPaginated (Inr last_page_of_23 :: json js_error + PaginatedBusResponse) = Inr result
         \<and> result_invariants result
         \<and> currentPage result = 4 \<and> totalPages result = 5 \<and> totalElements result = 23
         \<and> pageSize result = 5 \<and> \<not> isFirst result \<and> isLast result)"
proof -
  have h: "response_invariants last_page_of_23"
    by (simp add: response_invariants_def page_invariants_def last_page_of_23_def ceil_div_def)
  have f: "PaginatedBusResponse.totalElements last_page_of_23 = 23"
    "PaginatedBusResponse.totalPages last_page_of_23 = 5"
    "number last_page_of_23 = 4" "size' last_page_of_23 = 5"
    "\<not> first last_page_of_23" "last' last_page_of_23"
    by (simp_all add: last_page_of_23_def)
  from getPaginated_relays_metadata
    [of "Inr last_page_of_23 :: json js_error + PaginatedBusResponse" last_page_of_23]
  show ?thesis
    using h f by auto
qed

text \<open>
  C9 as stated fails on the page of an empty fleet: it is flagged as the last page while
  the current page 0 is not the page count minus one.
\<close>

theorem getPaginated_invariants_counterexample:
  "getPaginated (Inr empty_fleet_page :: json js_error + PaginatedBusResponse)
     = Inr (toPaginatedResult empty_fleet_page)
   \<and> \<not> result_invariants (toPaginatedResult empty_fleet_page)
   \<and> isLast (toPaginatedResult empty_fleet_page)
   \<and> currentPage (toPaginatedResult empty_fleet_page) = 0
   \<and> totalPages (toPaginatedResult empty_fleet_page) - 1 = - 1"
  by (simp add: getPaginated_def result_invariants_def page_invariants_def
      toPaginatedResult_fields empty_fleet_page_def)

end
